theory Spec2Isabelle
  imports Complex_Main
begin

section \<open>Faults, size_t arithmetic and checked indexing\<close>

text \<open>
  The renderer of \<^verbatim>\<open>renderer-impl.hpp\<close> raises nothing itself; what can go wrong in it is
  undefined behaviour of C++: an element read past the end of a vector and the read of a
  local that no branch has assigned. Both are results of the model.
\<close>

datatype fault = Out_Of_Range | Uninitialized_Read

definition and_then :: "fault + 'a \<Rightarrow> ('a \<Rightarrow> fault + 'b) \<Rightarrow> fault + 'b" where
  "and_then m f = (case m of Inl e \<Rightarrow> Inl e | Inr v \<Rightarrow> f v)"

text \<open>\<^verbatim>\<open>n - 1\<close> on a 64-bit \<^verbatim>\<open>size_t\<close>: it wraps at zero.\<close>

definition size_t_dec :: "nat \<Rightarrow> nat" where
  "size_t_dec n = (if n = 0 then 2 ^ 64 - 1 else n - 1)"

text \<open>\<^verbatim>\<open>v[i]\<close> on a \<^verbatim>\<open>std::vector\<close> (and \<^verbatim>\<open>y(i)\<close> on a sub-path).\<close>

definition elem_at :: "'a list \<Rightarrow> nat \<Rightarrow> fault + 'a" where
  "elem_at xs i = (if i < length xs then Inr (xs ! i) else Inl Out_Of_Range)"

text \<open>\<^verbatim>\<open>std::max(a, b)\<close> is \<^verbatim>\<open>(a < b) ? b : a\<close>.\<close>

definition std_max :: "'f::ord \<Rightarrow> 'f \<Rightarrow> 'f" where
  "std_max a b = (if a < b then b else a)"

section \<open>Data model\<close>

text \<open>
  The types \<^verbatim>\<open>float\<close>, \<^verbatim>\<open>double\<close>, \<^verbatim>\<open>vec3\<close>, \<^verbatim>\<open>direction\<close>, \<^verbatim>\<open>col3\<close> and the random number
  generator are the type variables \<open>'f\<close>, \<open>'g\<close>, \<open>'v\<close>, \<open>'d\<close>, \<open>'c\<close> and \<open>'r\<close>. The arithmetic
  of \<open>'f\<close>, \<open>'g\<close> and \<open>'c\<close> is that of the syntactic classes only: no law of arithmetic is
  assumed of it, so what is proved of the polymorphic definitions holds of rounded
  arithmetic as well.
\<close>

text \<open>\<^verbatim>\<open>candidate(m_light_paths[i], j)\<close>: a reference to sub-path \<open>i\<close> of the pool and \<open>j\<close>.\<close>

record candidate =
  cand_path :: nat
  cand_vertex :: nat

text \<open>The result of \<^verbatim>\<open>cache::sample\<close>: \<open>p_elem\<close> is the offset of the element pointed to
  from \<^verbatim>\<open>&*begin()\<close>.\<close>

record 'f sample_result =
  p_elem :: nat
  sample_pmf :: 'f

record ('f, 'r) cache =
  normalization_constant :: 'f
  cache_Q :: 'f
  cache_pmf :: "nat \<Rightarrow> 'f"
  cache_sample :: "'r \<Rightarrow> 'f sample_result \<times> 'r"
  cache_elems :: "candidate list"

record ('v, 'd, 'c) light_path_vertex =
  lv_p :: 'v
  lv_n :: 'v
  lv_brdf_f :: "'d \<Rightarrow> 'c"
  Le_throughput :: 'c

record ('f, 'v, 'd, 'c, 'r) camera_path_vertex =
  cv_p :: 'v
  cv_n :: 'v
  cv_is_emissive :: bool
  cv_Le :: "'d \<Rightarrow> 'c"
  cv_wo :: 'd
  cv_wi :: 'd
  cv_brdf_f :: "'d \<Rightarrow> 'c"
  throughput_We :: 'c
  pdf_fwd :: 'f
  neighbor_cache :: "nat \<Rightarrow> ('f, 'r) cache"

type_synonym ('v, 'd, 'c) light_path = "('v, 'd, 'c) light_path_vertex list"

type_synonym ('f, 'v, 'd, 'c, 'r) camera_path = "('f, 'v, 'd, 'c, 'r) camera_path_vertex list"

record camera =
  res_x :: nat
  res_y :: nat

record screen_pos =
  is_valid :: bool
  pos_x :: nat
  pos_y :: nat

text \<open>An image: its resolution and the three channels of the pixel \<open>(x, y)\<close>.\<close>

record 'f imagef =
  img_w :: nat
  img_h :: nat
  img_px :: "nat \<Rightarrow> nat \<Rightarrow> 'f \<times> 'f \<times> 'f"

text \<open>
  Everything the renderer calls that is not in \<^verbatim>\<open>renderer-impl.hpp\<close> (the scene, the
  camera model, the sub-path constructors, the cache, the vector and colour classes, the
  random number generator, the constants \<^verbatim>\<open>Nc\<close> and \<^verbatim>\<open>mis_threshold\<close>, the conversions
  between the numeric types) is a field of this record. The scene is fixed, so the
  functions that take it in the source do not take it here.
\<close>

record ('f, 'g, 'v, 'd, 'c, 'r) collaborators =
  Nc :: nat
  mis_threshold :: 'f
  to_float :: "nat \<Rightarrow> 'f"
  to_double :: "nat \<Rightarrow> 'g"
  double_to_float :: "'g \<Rightarrow> 'f"
  is_zero :: "'f \<Rightarrow> bool"
  isnan :: "'f \<Rightarrow> bool"
  fsqrt :: "'f \<Rightarrow> 'f"
  generate_uniform_real :: "'r \<Rightarrow> 'f \<times> 'r"
  generate_uniform_int :: "nat \<Rightarrow> nat \<Rightarrow> 'r \<Rightarrow> nat \<times> 'r"
  vec_sub :: "'v \<Rightarrow> 'v \<Rightarrow> 'v"
  squared_norm :: "'v \<Rightarrow> 'f"
  vec_div :: "'v \<Rightarrow> 'f \<Rightarrow> 'v"
  direction :: "'v \<Rightarrow> 'v \<Rightarrow> 'd"
  direction_neg :: "'d \<Rightarrow> 'v"
  direction_default :: 'd
  is_invalid :: "'d \<Rightarrow> bool"
  in_lower_hemisphere :: "'d \<Rightarrow> bool"
  abs_cos :: "'d \<Rightarrow> 'f"
  intersect :: "'v \<Rightarrow> 'd \<Rightarrow> 'f \<Rightarrow> bool"
  col_scale :: "'c \<Rightarrow> 'f \<Rightarrow> 'c"
  col_at :: "'c \<Rightarrow> nat \<Rightarrow> 'f"
  candidate_s :: "candidate \<Rightarrow> nat"
  light_mis_partial_weight ::
    "('v, 'd, 'c) light_path \<Rightarrow> nat \<Rightarrow> ('f, 'v, 'd, 'c, 'r) camera_path \<Rightarrow> nat \<Rightarrow>
       'd \<Rightarrow> 'd \<Rightarrow> nat \<Rightarrow> 'f \<Rightarrow> 'f"
  camera_mis_partial_weight ::
    "('v, 'd, 'c) light_path \<Rightarrow> nat \<Rightarrow> ('f, 'v, 'd, 'c, 'r) camera_path \<Rightarrow> nat \<Rightarrow>
       'd \<Rightarrow> 'd \<Rightarrow> nat \<Rightarrow> 'f \<Rightarrow> 'f"
  calc_intersection :: "camera \<Rightarrow> 'v \<Rightarrow> 'd \<Rightarrow> screen_pos"
  camera_We :: "camera \<Rightarrow> 'd \<Rightarrow> 'f"
  camera_for_gen_caches :: "camera \<Rightarrow> camera"
  kd_tree :: "('f, 'r) cache list \<Rightarrow> ('f, 'r) cache list"
  construct_camera_path ::
    "camera \<Rightarrow> nat \<Rightarrow> nat \<Rightarrow> 'r \<Rightarrow> ('f, 'r) cache list option \<Rightarrow>
       ('f, 'v, 'd, 'c, 'r) camera_path \<times> 'r"
  construct_light_path :: "'r \<Rightarrow> ('f, 'r) cache list \<Rightarrow> ('v, 'd, 'c) light_path \<times> 'r"
  make_cache :: "('f, 'v, 'd, 'c, 'r) camera_path_vertex \<Rightarrow> bool \<Rightarrow> ('f, 'r) cache"
  calc_distribution ::
    "candidate list \<Rightarrow> ('v, 'd, 'c) light_path list \<Rightarrow> nat \<Rightarrow> ('f, 'r) cache \<Rightarrow> ('f, 'r) cache"

text \<open>
  The members of \<^verbatim>\<open>renderer\<close>. The constructor does not initialise \<^verbatim>\<open>m_Qp\<close>: it holds
  no value (\<open>None\<close>) until the first frame assigns it. The kd-tree \<^verbatim>\<open>m_caches\<close> is the
  sequence of its elements, \<^verbatim>\<open>begin()\<close> to \<^verbatim>\<open>end()\<close>.
\<close>

record ('f, 'g, 'v, 'd, 'c, 'r) renderer =
  m_M :: nat
  m_nt :: nat
  m_ns1 :: nat
  m_sum :: 'g
  m_ite :: nat
  m_Qp :: "'f option"
  m_buf_s1 :: "'f imagef"
  m_caches :: "('f, 'r) cache list"
  m_light_paths :: "('v, 'd, 'c) light_path list"
  m_candidates :: "candidate list"

section \<open>\<^verbatim>\<open>renderer::calculate_st\<close>: the resampling strategies (s >= 1, t >= 2)\<close>

text \<open>
  Lines 256 to 261: the scan over the real cache points. It leaves with \<open>i\<close> at the first
  \<open>i\<close> with \<^verbatim>\<open>u < 1 / float(Nc + 1)\<close> and takes that much from \<open>u\<close> otherwise; when no \<open>i\<close>
  is left, \<^verbatim>\<open>cache_idx\<close> is still \<^verbatim>\<open>Nc\<close>, the virtual cache point.
\<close>

function scan_caches ::
  "('f::{one,minus,inverse,ord}, 'g, 'v, 'd, 'c, 'r) collaborators \<Rightarrow> nat \<Rightarrow> 'f \<Rightarrow> nat" where
  "scan_caches X i u =
     (if i < Nc X then
        (if u < 1 / to_float X (Nc X + 1) then i
         else scan_caches X (i + 1) (u - 1 / to_float X (Nc X + 1)))
      else Nc X)"
  by pat_completeness auto
termination
  by (relation "measure (\<lambda>(X, i, u). Nc X - i)") auto

text \<open>Lines 252 to 262: \<^verbatim>\<open>cache_idx\<close>, \<^verbatim>\<open>pmf\<close> and the generator after the draw of \<open>u\<close>.\<close>

definition sample_cache_point ::
  "('f::{one,minus,inverse,ord}, 'g, 'v, 'd, 'c, 'r) collaborators \<Rightarrow> 'r \<Rightarrow> nat \<times> 'f \<times> 'r" where
  "sample_cache_point X rng =
     (let pmf = 1 / to_float X (Nc X + 1);
          (u, rng1) = generate_uniform_real X rng
      in (scan_caches X 0 u, pmf, rng1))"

text \<open>
  Lines 268 to 280: the candidate is drawn from the chosen cache, or, for the virtual cache
  point, uniformly from \<^verbatim>\<open>m_candidates\<close> with an index in \<^verbatim>\<open>[0, size() - 1]\<close>. The result is
  \<^verbatim>\<open>sample_idx\<close>, the candidate pointed to, \<^verbatim>\<open>pmf\<close> and the generator.
\<close>

definition resample_light_subpath ::
  "('f::{one,times,inverse}, 'g, 'v, 'd, 'c, 'r) collaborators \<Rightarrow>
   ('f, 'g, 'v, 'd, 'c, 'r) renderer \<Rightarrow> ('f, 'v, 'd, 'c, 'r) camera_path_vertex \<Rightarrow>
   nat \<Rightarrow> 'f \<Rightarrow> 'r \<Rightarrow> fault + (nat \<times> candidate \<times> 'f \<times> 'r)" where
  "resample_light_subpath X R ztm1 cache_idx pmf rng =
     (if cache_idx \<noteq> Nc X then
        (let (smp, rng') = cache_sample (neighbor_cache ztm1 cache_idx) rng in
         and_then (elem_at (cache_elems (neighbor_cache ztm1 cache_idx)) (p_elem smp))
           (\<lambda>cand. Inr (p_elem smp, cand, pmf * sample_pmf smp, rng')))
      else
        (let (sample_idx, rng') =
               generate_uniform_int X 0 (size_t_dec (length (m_candidates R))) rng in
         and_then (elem_at (m_candidates R) sample_idx)
           (\<lambda>cand. Inr (sample_idx, cand,
                         pmf * (1 / to_float X (length (m_candidates R))), rng'))))"

text \<open>
  Lines 318 to 320 and 327 to 329: the term of one cache point, \<open>x\<close> being
  \<^verbatim>\<open>std::max(mis_threshold, Q / Le_throughput_FGVc)\<close> or \<^verbatim>\<open>m_Qp\<close>. \<^verbatim>\<open>m_M - 1\<close> is computed
  in \<^verbatim>\<open>size_t\<close> and then converted.
\<close>

definition tmp_val ::
  "('f::{one,plus,times,inverse}, 'g, 'v, 'd, 'c, 'r) collaborators \<Rightarrow> nat \<Rightarrow> 'f \<Rightarrow> 'f" where
  "tmp_val X M x =
     (1 / to_float X (Nc X + 1)) * to_float X M / (to_float X (size_t_dec M) * x + 1)"

text \<open>Line 315: \<^verbatim>\<open>pmf(sample_idx) * normalization_constant()\<close> of neighbour cache \<open>i\<close>.\<close>

definition Le_throughput_FGVc ::
  "('f::times, 'v, 'd, 'c, 'r) camera_path_vertex \<Rightarrow> nat \<Rightarrow> nat \<Rightarrow> 'f" where
  "Le_throughput_FGVc ztm1 sample_idx i =
     cache_pmf (neighbor_cache ztm1 i) sample_idx *
     normalization_constant (neighbor_cache ztm1 i)"

text \<open>
  Lines 309 to 326: the loop over the real cache points, with the locals \<^verbatim>\<open>val\<close> (not
  initialised: \<open>None\<close>) and \<^verbatim>\<open>sum_val\<close>.
\<close>

function weight_loop ::
  "('f::{zero,one,plus,times,inverse,ord}, 'g, 'v, 'd, 'c, 'r) collaborators \<Rightarrow> nat \<Rightarrow>
   ('f, 'v, 'd, 'c, 'r) camera_path_vertex \<Rightarrow> nat \<Rightarrow> nat \<Rightarrow> nat \<Rightarrow>
   'f option \<Rightarrow> 'f \<Rightarrow> 'f option \<times> 'f" where
  "weight_loop X M ztm1 sample_idx cache_idx i val sum_val =
     (if i < Nc X then
        (let Q = cache_Q (neighbor_cache ztm1 i);
             p = Le_throughput_FGVc ztm1 sample_idx i
         in if 0 < p then
              (let t = tmp_val X M (std_max (mis_threshold X) (Q / p))
               in weight_loop X M ztm1 sample_idx cache_idx (i + 1)
                    (if cache_idx = i then Some t else val) (sum_val + t))
            else weight_loop X M ztm1 sample_idx cache_idx (i + 1) val sum_val)
      else (val, sum_val))"
  by pat_completeness auto
termination
  by (relation "measure (\<lambda>(X, M, ztm1, sample_idx, cache_idx, i, val, sum_val). Nc X - i)") auto

text \<open>
  Lines 307 to 338: the resampling-aware weighting function. Reading \<^verbatim>\<open>val\<close> when no branch
  has assigned it, or \<^verbatim>\<open>m_Qp\<close> before the first frame has, is a fault.
\<close>

definition resampling_aware_weight ::
  "('f::{zero,one,plus,times,inverse,ord}, 'g, 'v, 'd, 'c, 'r) collaborators \<Rightarrow>
   ('f, 'g, 'v, 'd, 'c, 'r) renderer \<Rightarrow> ('v, 'd, 'c) light_path \<Rightarrow> nat \<Rightarrow>
   ('f, 'v, 'd, 'c, 'r) camera_path \<Rightarrow> nat \<Rightarrow> 'd \<Rightarrow> 'd \<Rightarrow>
   ('f, 'v, 'd, 'c, 'r) camera_path_vertex \<Rightarrow> nat \<Rightarrow> nat \<Rightarrow> fault + 'f" where
  "resampling_aware_weight X R y s z t yz zy ztm1 sample_idx cache_idx =
     (case m_Qp R of
        None \<Rightarrow> Inl Uninitialized_Read
      | Some Qp \<Rightarrow>
          (let (val, sum_val) = weight_loop X (m_M R) ztm1 sample_idx cache_idx 0 None 0;
               t_virtual = tmp_val X (m_M R) Qp;
               val = (if cache_idx = Nc X then Some t_virtual else val);
               sum_val = sum_val + t_virtual
           in case val of
                None \<Rightarrow> Inl Uninitialized_Read
              | Some v \<Rightarrow>
                  Inr (v / (light_mis_partial_weight X y s z t yz zy (m_M R) Qp + sum_val +
                            camera_mis_partial_weight X y s z t yz zy (m_M R) Qp))))"

text \<open>
  Lines 281 to 341: the connection of the candidate's vertex \<open>y(s - 1)\<close> to \<open>z(t - 1)\<close>. The
  result is the colour added to \<open>L\<close>, \<open>None\<close> when the pass adds nothing (a \<^verbatim>\<open>continue\<close>,
  or an occluded connection).
\<close>

definition connect_candidate ::
  "('f::{zero,one,plus,times,inverse,ord}, 'g, 'v, 'd, 'c::times, 'r) collaborators \<Rightarrow>
   ('f, 'g, 'v, 'd, 'c, 'r) renderer \<Rightarrow> ('f, 'v, 'd, 'c, 'r) camera_path \<Rightarrow> nat \<Rightarrow>
   nat \<Rightarrow> nat \<Rightarrow> candidate \<Rightarrow> 'f \<Rightarrow> fault + 'c option" where
  "connect_candidate X R z t cache_idx sample_idx cand pmf =
     (let ztm1 = z ! (t - 1) in
      and_then (elem_at (m_light_paths R) (cand_path cand)) (\<lambda>y.
        let s = candidate_s X cand in
        and_then (elem_at y (size_t_dec s)) (\<lambda>ysm1.
          let tmp_yz = vec_sub X (cv_p ztm1) (lv_p ysm1);
              dist2 = squared_norm X tmp_yz;
              dist = fsqrt X dist2;
              yz = direction X (vec_div X tmp_yz dist) (lv_n ysm1)
          in if is_invalid X yz \<or> in_lower_hemisphere X yz then Inr None
             else
               (let zy = direction X (direction_neg X yz) (cv_n ztm1)
                in if is_invalid X zy \<or> in_lower_hemisphere X zy then Inr None
                   else if intersect X (lv_p ysm1) yz dist then Inr None
                   else
                     (let fyz = lv_brdf_f ysm1 yz;
                          fzy = cv_brdf_f ztm1 zy;
                          G = abs_cos X yz * abs_cos X zy / dist2
                      in and_then
                           (resampling_aware_weight X R y s z t yz zy ztm1 sample_idx cache_idx)
                           (\<lambda>mis_weight.
                              Inr (Some (col_scale X
                                     (Le_throughput ysm1 * fyz * fzy * throughput_We ztm1)
                                     (G / (pmf * to_float X (m_M R)) * mis_weight)))))))))"

text \<open>
  One pass of the loop over \<open>t\<close> (lines 244 to 341): the colour added to \<open>L\<close>, if any, and
  the generator.
\<close>

definition st_iteration ::
  "('f::{zero,one,plus,minus,times,inverse,ord}, 'g, 'v, 'd, 'c::times, 'r) collaborators \<Rightarrow>
   ('f, 'g, 'v, 'd, 'c, 'r) renderer \<Rightarrow> ('f, 'v, 'd, 'c, 'r) camera_path \<Rightarrow> 'r \<Rightarrow> nat \<Rightarrow>
   fault + ('c option \<times> 'r)" where
  "st_iteration X R z rng t =
     (let ztm1 = z ! (t - 1) in
      if cv_is_emissive ztm1 then Inr (None, rng)
      else
        (let (cache_idx, pmf0, rng1) = sample_cache_point X rng
         in if cache_idx \<noteq> Nc X \<and>
               is_zero X (normalization_constant (neighbor_cache ztm1 cache_idx))
            then Inr (None, rng1)
            else
              and_then (resample_light_subpath X R ztm1 cache_idx pmf0 rng1)
                (\<lambda>(sample_idx, cand, pmf, rng2).
                   and_then (connect_candidate X R z t cache_idx sample_idx cand pmf)
                     (\<lambda>contrib. Inr (contrib, rng2)))))"

text \<open>Lines 241 to 343: \<^verbatim>\<open>for(size_t t = 2; t <= nE; t++)\<close>, with \<^verbatim>\<open>col3 L\<close> starting as 0.\<close>

function st_loop ::
  "('f::{zero,one,plus,minus,times,inverse,ord}, 'g, 'v, 'd, 'c::{plus,times}, 'r) collaborators \<Rightarrow>
   ('f, 'g, 'v, 'd, 'c, 'r) renderer \<Rightarrow> ('f, 'v, 'd, 'c, 'r) camera_path \<Rightarrow> nat \<Rightarrow> 'r \<Rightarrow> 'c \<Rightarrow>
   fault + ('c \<times> 'r)" where
  "st_loop X R z t rng L =
     (if t \<le> length z then
        (case st_iteration X R z rng t of
           Inl e \<Rightarrow> Inl e
         | Inr (contrib, rng') \<Rightarrow>
             st_loop X R z (t + 1) rng' (case contrib of None \<Rightarrow> L | Some c \<Rightarrow> L + c))
      else Inr (L, rng))"
  by pat_completeness auto
termination
  by (relation "measure (\<lambda>(X, R, z, t, rng, L). length z + 1 - t)") auto

definition calculate_st ::
  "('f::{zero,one,plus,minus,times,inverse,ord}, 'g, 'v, 'd, 'c::{zero,plus,times}, 'r) collaborators \<Rightarrow>
   ('f, 'g, 'v, 'd, 'c, 'r) renderer \<Rightarrow> ('f, 'v, 'd, 'c, 'r) camera_path \<Rightarrow> 'r \<Rightarrow>
   fault + ('c \<times> 'r)" where
  "calculate_st X R z rng = st_loop X R z 2 rng 0"

section \<open>\<^verbatim>\<open>renderer::calculate_0t\<close>: the strategies (s = 0, t >= 2)\<close>

text \<open>In \<^verbatim>\<open>0 + 1 + w\<close> the sum \<^verbatim>\<open>0 + 1\<close> is an \<^verbatim>\<open>int\<close>, converted to the \<^verbatim>\<open>float\<close> 1.\<close>

definition calculate_0t ::
  "('f::{one,plus,inverse}, 'g, 'v, 'd, 'c::{zero,times}, 'r) collaborators \<Rightarrow>
   ('f, 'g, 'v, 'd, 'c, 'r) renderer \<Rightarrow> ('v, 'd, 'c) light_path \<Rightarrow>
   ('f, 'v, 'd, 'c, 'r) camera_path \<Rightarrow> fault + 'c" where
  "calculate_0t X R y z =
     (let t = length z in
      if 2 \<le> t \<and> cv_is_emissive (z ! (t - 1)) then
        (let ztm1 = z ! (t - 1);
             Le = cv_Le ztm1 (cv_wo ztm1)
         in case m_Qp R of
              None \<Rightarrow> Inl Uninitialized_Read
            | Some Qp \<Rightarrow>
                (let mis_weight =
                       1 / (1 + camera_mis_partial_weight X y 0 z t (direction_default X)
                                  (cv_wi ztm1) (m_M R) Qp)
                 in Inr (col_scale X (Le * throughput_We ztm1) mis_weight)))
      else Inr 0)"

section \<open>\<^verbatim>\<open>renderer::calculate_s1\<close>: the strategies (s >= 1, t = 1)\<close>

text \<open>\<^verbatim>\<open>img(x, y)[k] += c[k]\<close> for the three channels; a pixel outside the image is a fault.\<close>

definition px_add :: "'f::plus imagef \<Rightarrow> nat \<Rightarrow> nat \<Rightarrow> 'f \<times> 'f \<times> 'f \<Rightarrow> fault + 'f imagef" where
  "px_add img x y c =
     (if x < img_w img \<and> y < img_h img then
        (case (img_px img x y, c) of
           ((r, g, b), (cr, cg, cb)) \<Rightarrow>
             Inr (img\<lparr>img_px := (img_px img)(x := (img_px img x)(y := (r + cr, g + cg, b + cb)))\<rparr>))
      else Inl Out_Of_Range)"

definition col_channels ::
  "('f, 'g, 'v, 'd, 'c, 'r) collaborators \<Rightarrow> 'c \<Rightarrow> 'f \<times> 'f \<times> 'f" where
  "col_channels X c = (col_at X c 0, col_at X c 1, col_at X c 2)"

text \<open>One pass of the loop over \<open>s\<close> (lines 190 to 230); the result is \<^verbatim>\<open>m_buf_s1\<close>.\<close>

definition s1_iteration ::
  "('f::{zero,plus,times,inverse}, 'g, 'v, 'd, 'c::times, 'r) collaborators \<Rightarrow>
   ('f, 'g, 'v, 'd, 'c, 'r) renderer \<Rightarrow> camera \<Rightarrow> ('v, 'd, 'c) light_path \<Rightarrow>
   ('f, 'v, 'd, 'c, 'r) camera_path \<Rightarrow> nat \<Rightarrow> fault + 'f imagef" where
  "s1_iteration X R cam y z s =
     and_then (elem_at z 0) (\<lambda>z0.
       let ysm1 = y ! (s - 1);
           tmp_zy = vec_sub X (lv_p ysm1) (cv_p z0);
           dist2 = squared_norm X tmp_zy;
           dist = fsqrt X dist2;
           zy = direction X (vec_div X tmp_zy dist) (cv_n z0)
       in if is_invalid X zy \<or> in_lower_hemisphere X zy then Inr (m_buf_s1 R)
          else
            (let yz = direction X (direction_neg X zy) (lv_n ysm1)
             in if is_invalid X yz \<or> in_lower_hemisphere X yz then Inr (m_buf_s1 R)
                else
                  (let screen_pos = calc_intersection X cam (cv_p z0) zy
                   in if is_valid screen_pos \<and> \<not> intersect X (cv_p z0) zy dist then
                        (case m_Qp R of
                           None \<Rightarrow> Inl Uninitialized_Read
                         | Some Qp \<Rightarrow>
                             (let fyz = lv_brdf_f ysm1 yz;
                                  We = camera_We X cam zy;
                                  G = abs_cos X yz * abs_cos X zy / dist2;
                                  mis_weight =
                                    to_float X (m_ns1 R) /
                                    (light_mis_partial_weight X y s z 1 yz zy (m_M R) Qp +
                                     to_float X (m_ns1 R) + 0);
                                  contrib =
                                    col_scale X (Le_throughput ysm1 * fyz)
                                      (We * G / pdf_fwd z0 * mis_weight)
                              in px_add (m_buf_s1 R) (pos_x screen_pos) (pos_y screen_pos)
                                   (col_channels X contrib)))
                      else Inr (m_buf_s1 R))))"

text \<open>Lines 188 to 231: \<^verbatim>\<open>for(size_t s = 1, nL = y.num_vertices(); s <= nL; s++)\<close>.\<close>

function s1_loop ::
  "('f::{zero,plus,times,inverse}, 'g, 'v, 'd, 'c::times, 'r) collaborators \<Rightarrow>
   ('f, 'g, 'v, 'd, 'c, 'r) renderer \<Rightarrow> camera \<Rightarrow> ('v, 'd, 'c) light_path \<Rightarrow>
   ('f, 'v, 'd, 'c, 'r) camera_path \<Rightarrow> nat \<Rightarrow> fault + ('f, 'g, 'v, 'd, 'c, 'r) renderer" where
  "s1_loop X R cam y z s =
     (if s \<le> length y then
        (case s1_iteration X R cam y z s of
           Inl e \<Rightarrow> Inl e
         | Inr buf \<Rightarrow> s1_loop X (R\<lparr>m_buf_s1 := buf\<rparr>) cam y z (s + 1))
      else Inr R)"
  by pat_completeness auto
termination
  by (relation "measure (\<lambda>(X, R, cam, y, z, s). length y + 1 - s)") auto

definition calculate_s1 ::
  "('f::{zero,plus,times,inverse}, 'g, 'v, 'd, 'c::times, 'r) collaborators \<Rightarrow>
   ('f, 'g, 'v, 'd, 'c, 'r) renderer \<Rightarrow> camera \<Rightarrow> ('v, 'd, 'c) light_path \<Rightarrow>
   ('f, 'v, 'd, 'c, 'r) camera_path \<Rightarrow> fault + ('f, 'g, 'v, 'd, 'c, 'r) renderer" where
  "calculate_s1 X R cam y z = s1_loop X R cam y z 1"

section \<open>\<^verbatim>\<open>renderer::radiance\<close>\<close>

text \<open>
  The colour of the pixel \<open>(x, y)\<close>, the renderer (its \<^verbatim>\<open>m_buf_s1\<close> updated by
  \<^verbatim>\<open>calculate_s1\<close>) and the generator.
\<close>

definition radiance ::
  "('f::{zero,one,plus,minus,times,inverse,ord}, 'g, 'v, 'd, 'c::{zero,plus,times}, 'r) collaborators \<Rightarrow>
   ('f, 'g, 'v, 'd, 'c, 'r) renderer \<Rightarrow> camera \<Rightarrow> nat \<Rightarrow> nat \<Rightarrow> 'r \<Rightarrow>
   fault + ('c \<times> ('f, 'g, 'v, 'd, 'c, 'r) renderer \<times> 'r)" where
  "radiance X R cam x y rng =
     (let (camera_path, rng1) = construct_camera_path X cam x y rng (Some (m_caches R)) in
      and_then (elem_at (m_light_paths R) (x + res_x cam * y)) (\<lambda>light_path.
      and_then (calculate_s1 X R cam light_path camera_path) (\<lambda>R1.
      and_then (calculate_0t X R1 light_path camera_path) (\<lambda>c0.
      and_then (calculate_st X R1 camera_path rng1) (\<lambda>(cst, rng2).
        Inr (c0 + cst, R1, rng2))))))"

section \<open>\<^verbatim>\<open>renderer::renderer\<close>\<close>

text \<open>
  Modelled from the spec: the image container \<^verbatim>\<open>imagef\<close> is not in \<^verbatim>\<open>src/\<close>. A new image
  holds 0 in every channel of every pixel, which is what the spec's all-zero image for a
  scene without light sources needs of it.
\<close>

definition imagef_new :: "nat \<Rightarrow> nat \<Rightarrow> 'f::zero imagef" where
  "imagef_new w h = \<lparr>img_w = w, img_h = h, img_px = (\<lambda>x y. (0, 0, 0))\<rparr>"

text \<open>
  Lines 12 to 22. \<^verbatim>\<open>m_sum()\<close> and \<^verbatim>\<open>m_ite()\<close> are value-initialised, the three vectors are
  empty and \<^verbatim>\<open>m_Qp\<close> is left without a value. The body has no branch: whatever \<open>M\<close> is, the
  renderer is built.
\<close>

definition renderer_ctor ::
  "camera \<Rightarrow> nat \<Rightarrow> nat \<Rightarrow> ('f::zero, 'g::zero, 'v, 'd, 'c, 'r) renderer" where
  "renderer_ctor cam M nt =
     \<lparr>m_M = M, m_nt = nt, m_ns1 = res_x cam * res_y cam, m_sum = 0, m_ite = 0,
      m_Qp = None, m_buf_s1 = imagef_new (res_x cam) (res_y cam), m_caches = [],
      m_light_paths = [], m_candidates = []\<rparr>"

section \<open>\<^verbatim>\<open>renderer::render\<close>\<close>

text \<open>
  The cells of a \<open>w\<close> by \<open>h\<close> grid, row after row: the order of the loop of lines 130 and
  131. The cells \<^verbatim>\<open>in_parallel\<close> hands to the worker threads are visited in this order too,
  one after the other, with one generator: the threads and their interleaving are not
  modelled.
\<close>

definition pixels :: "nat \<Rightarrow> nat \<Rightarrow> (nat \<times> nat) list" where
  "pixels w h = concat (map (\<lambda>y. map (\<lambda>x. (x, y)) [0..<w]) [0..<h])"

text \<open>
  Lines 52 to 67: an eye sub-path per cell of the coarse camera, whose vertices from index
  1 on are added to \<^verbatim>\<open>caches\<close>. In the first frame the path is constructed without the
  caches of the frame before.
\<close>

fun trace_cache_points ::
  "('f, 'g, 'v, 'd, 'c, 'r) collaborators \<Rightarrow> camera \<Rightarrow> bool \<Rightarrow> ('f, 'r) cache list \<Rightarrow>
   (nat \<times> nat) list \<Rightarrow> 'r \<Rightarrow> ('f, 'r) cache list \<Rightarrow> ('f, 'r) cache list \<times> 'r" where
  "trace_cache_points X cam first prev [] rng caches = (caches, rng)"
| "trace_cache_points X cam first prev ((x, y) # ps) rng caches =
     (let (z, rng') = construct_camera_path X cam x y rng (if first then None else Some prev)
      in trace_cache_points X cam first prev ps rng'
           (caches @ map (\<lambda>v. make_cache X v first) (drop 1 z)))"

text \<open>Lines 77 to 82: \<open>n\<close> light sub-paths, constructed one after the other.\<close>

fun construct_light_paths ::
  "('f, 'g, 'v, 'd, 'c, 'r) collaborators \<Rightarrow> ('f, 'r) cache list \<Rightarrow> nat \<Rightarrow> 'r \<Rightarrow>
   ('v, 'd, 'c) light_path list \<times> 'r" where
  "construct_light_paths X caches 0 rng = ([], rng)"
| "construct_light_paths X caches (Suc n) rng =
     (let (p, rng1) = construct_light_path X rng caches;
          (ps, rng2) = construct_light_paths X caches n rng1
      in (p # ps, rng2))"

text \<open>Lines 86 to 89: the sum of the vertex counts of \<^verbatim>\<open>m_light_paths[i]\<close> for \<open>i < m_M\<close>.\<close>

function count_vertices :: "'p list list \<Rightarrow> nat \<Rightarrow> nat \<Rightarrow> nat \<Rightarrow> fault + nat" where
  "count_vertices paths M i V =
     (if i < M then
        (case elem_at paths i of
           Inl e \<Rightarrow> Inl e
         | Inr p \<Rightarrow> count_vertices paths M (i + 1) (V + length p))
      else Inr V)"
  by pat_completeness auto
termination
  by (relation "measure (\<lambda>(paths, M, i, V). M - i)") auto

text \<open>\<^verbatim>\<open>std::vector::resize(n)\<close>: the first \<open>n\<close> elements stay, new ones are \<open>d\<close>.\<close>

definition vector_resize :: "'a list \<Rightarrow> nat \<Rightarrow> 'a \<Rightarrow> 'a list" where
  "vector_resize xs n d = take n xs @ replicate (n - length xs) d"

text \<open>Lines 94 to 96: \<^verbatim>\<open>m_candidates[V++] = candidate(m_light_paths[i], j)\<close> for \<open>j < n\<close>.\<close>

function fill_vertices ::
  "candidate list \<Rightarrow> nat \<Rightarrow> nat \<Rightarrow> nat \<Rightarrow> nat \<Rightarrow> fault + (candidate list \<times> nat)" where
  "fill_vertices cands V i j n =
     (if j < n then
        (if V < length cands then
           fill_vertices (cands[V := \<lparr>cand_path = i, cand_vertex = j\<rparr>]) (V + 1) i (j + 1) n
         else Inl Out_Of_Range)
      else Inr (cands, V))"
  by pat_completeness auto
termination
  by (relation "measure (\<lambda>(cands, V, i, j, n). n - j)") auto

text \<open>Lines 92 to 97: the loop over \<open>i < m_M\<close> around it.\<close>

function fill_paths ::
  "'p list list \<Rightarrow> nat \<Rightarrow> candidate list \<Rightarrow> nat \<Rightarrow> nat \<Rightarrow> fault + candidate list" where
  "fill_paths paths M cands V i =
     (if i < M then
        (case elem_at paths i of
           Inl e \<Rightarrow> Inl e
         | Inr p \<Rightarrow>
             (case fill_vertices cands V i 0 (length p) of
                Inl e \<Rightarrow> Inl e
              | Inr (cands', V') \<Rightarrow> fill_paths paths M cands' V' (i + 1)))
      else Inr cands)"
  by pat_completeness auto
termination
  by (relation "measure (\<lambda>(paths, M, cands, V, i). M - i)") auto

text \<open>
  Lines 85 to 98: the candidate pool. The elements \<^verbatim>\<open>resize\<close> adds are default-constructed
  candidates; each of them is overwritten by the second loop.
\<close>

definition build_candidates ::
  "'p list list \<Rightarrow> nat \<Rightarrow> candidate list \<Rightarrow> fault + candidate list" where
  "build_candidates paths M old =
     and_then (count_vertices paths M 0 0) (\<lambda>V.
       fill_paths paths M (vector_resize old V \<lparr>cand_path = 0, cand_vertex = 0\<rparr>) 0 0)"

text \<open>
  Line 114: \<^verbatim>\<open>memset(m_buf_s1(0,0), 0, sizeof(float) * 3 * w * h)\<close> clears the first \<open>n\<close>
  pixels of the buffer, which lie row after row; a buffer of fewer pixels is overrun.
\<close>

definition memset_zero :: "'f::zero imagef \<Rightarrow> nat \<Rightarrow> fault + 'f imagef" where
  "memset_zero img n =
     (if n \<le> img_w img * img_h img then
        Inr (img\<lparr>img_px :=
               (\<lambda>x y. if x < img_w img \<and> x + img_w img * y < n then (0, 0, 0)
                      else img_px img x y)\<rparr>)
      else Inl Out_Of_Range)"

text \<open>Lines 121 to 125: the colour is stored unless the sum of its channels is NaN.\<close>

definition store_color ::
  "('f::plus, 'g, 'v, 'd, 'c, 'r) collaborators \<Rightarrow> 'f imagef \<Rightarrow> nat \<Rightarrow> nat \<Rightarrow> 'c \<Rightarrow> 'f imagef" where
  "store_color X screen x y col =
     (if \<not> isnan X (col_at X col 0 + col_at X col 1 + col_at X col 2) then
        screen\<lparr>img_px := (img_px screen)(x := (img_px screen x)(y := col_channels X col))\<rparr>
      else screen)"

text \<open>Lines 116 to 126: the pixels of the frame.\<close>

fun render_pixels ::
  "('f::{zero,one,plus,minus,times,inverse,ord}, 'g, 'v, 'd, 'c::{zero,plus,times}, 'r) collaborators \<Rightarrow>
   camera \<Rightarrow> (nat \<times> nat) list \<Rightarrow> ('f, 'g, 'v, 'd, 'c, 'r) renderer \<Rightarrow> 'r \<Rightarrow> 'f imagef \<Rightarrow>
   fault + (('f, 'g, 'v, 'd, 'c, 'r) renderer \<times> 'r \<times> 'f imagef)" where
  "render_pixels X cam [] R rng screen = Inr (R, rng, screen)"
| "render_pixels X cam ((x, y) # ps) R rng screen =
     (case radiance X R cam x y rng of
        Inl e \<Rightarrow> Inl e
      | Inr (col, R', rng') \<Rightarrow> render_pixels X cam ps R' rng' (store_color X screen x y col))"

text \<open>Lines 130 to 136: \<^verbatim>\<open>screen(x, y)[k] += m_buf_s1(x, y)[k] * inv_ns1\<close>.\<close>

fun add_s1 ::
  "'f::{plus,times} imagef \<Rightarrow> 'f \<Rightarrow> (nat \<times> nat) list \<Rightarrow> 'f imagef \<Rightarrow> fault + 'f imagef" where
  "add_s1 buf inv_ns1 [] screen = Inr screen"
| "add_s1 buf inv_ns1 ((x, y) # ps) screen =
     (if x < img_w buf \<and> y < img_h buf then
        (case img_px buf x y of
           (br, bg, bb) \<Rightarrow>
             (case px_add screen x y (br * inv_ns1, bg * inv_ns1, bb * inv_ns1) of
                Inl e \<Rightarrow> Inl e
              | Inr screen' \<Rightarrow> add_s1 buf inv_ns1 ps screen'))
      else Inl Out_Of_Range)"

text \<open>
  Lines 29 to 114, the part of \<^verbatim>\<open>render\<close> before the pixels: the iteration counter, the
  cache points, the light sub-paths, the candidate pool, the distributions of the cache
  points, the normalisation factor of the virtual cache point and the cleared buffer.
\<close>

definition prepare_frame ::
  "('f::zero, 'g::{plus,inverse}, 'v, 'd, 'c, 'r) collaborators \<Rightarrow>
   ('f, 'g, 'v, 'd, 'c, 'r) renderer \<Rightarrow> camera \<Rightarrow> 'r \<Rightarrow>
   fault + (('f, 'g, 'v, 'd, 'c, 'r) renderer \<times> 'r)" where
  "prepare_frame X R0 cam rng0 =
     (let R1 = R0\<lparr>m_ite := m_ite R0 + 1\<rparr>;
          w = res_x cam;
          h = res_y cam;
          cam_gen = camera_for_gen_caches X cam;
          (caches, rng1) =
            trace_cache_points X cam_gen (m_ite R1 = 1) (m_caches R1)
              (pixels (res_x cam_gen) (res_y cam_gen)) rng0 [];
          R2 = R1\<lparr>m_caches := kd_tree X caches\<rparr>;
          (paths, rng2) = construct_light_paths X (m_caches R2) (w * h) rng1;
          R3 = R2\<lparr>m_light_paths := paths\<rparr>
      in and_then (build_candidates (m_light_paths R3) (m_M R3) (m_candidates R3)) (\<lambda>cands.
         let R4 = R3\<lparr>m_candidates := cands\<rparr>;
             R5 = R4\<lparr>m_caches :=
                       map (calc_distribution X (m_candidates R4) (m_light_paths R4) (m_M R4))
                         (m_caches R4)\<rparr>;
             new_sum =
               m_sum R5 + to_double X (length (m_candidates R5)) / to_double X (m_M R5);
             R6 = R5\<lparr>m_sum := new_sum,
                     m_Qp := Some (double_to_float X (new_sum / to_double X (m_ite R5)))\<rparr>
         in and_then (memset_zero (m_buf_s1 R6) (w * h)) (\<lambda>buf.
              Inr (R6\<lparr>m_buf_s1 := buf\<rparr>, rng2))))"

text \<open>
  Lines 27 to 138: one frame. The result is the image, the renderer and the generator.
\<close>

definition render ::
  "('f::{zero,one,plus,minus,times,inverse,ord}, 'g::{plus,inverse}, 'v, 'd, 'c::{zero,plus,times}, 'r) collaborators \<Rightarrow>
   ('f, 'g, 'v, 'd, 'c, 'r) renderer \<Rightarrow> camera \<Rightarrow> 'r \<Rightarrow>
   fault + ('f imagef \<times> ('f, 'g, 'v, 'd, 'c, 'r) renderer \<times> 'r)" where
  "render X R0 cam rng0 =
     (let w = res_x cam;
          h = res_y cam;
          screen = imagef_new w h
      in and_then (prepare_frame X R0 cam rng0) (\<lambda>(R6, rng2).
         and_then (render_pixels X cam (pixels w h) R6 rng2 screen) (\<lambda>(R7, rng3, screen1).
         and_then (add_s1 (m_buf_s1 R7) (1 / to_float X (m_ns1 R7)) (pixels w h) screen1)
           (\<lambda>screen2. Inr (screen2, R7, rng3)))))"

text \<open>
  \<open>k\<close> successive calls of \<^verbatim>\<open>render\<close> on one renderer, as a caller makes them frame after
  frame: the renderer and the generator after the last call, and the size of the candidate
  pool of each frame.
\<close>

fun render_frames ::
  "('f::{zero,one,plus,minus,times,inverse,ord}, 'g::{plus,inverse}, 'v, 'd, 'c::{zero,plus,times}, 'r) collaborators \<Rightarrow>
   ('f, 'g, 'v, 'd, 'c, 'r) renderer \<Rightarrow> camera \<Rightarrow> 'r \<Rightarrow> nat \<Rightarrow>
   fault + (('f, 'g, 'v, 'd, 'c, 'r) renderer \<times> 'r \<times> nat list)" where
  "render_frames X R cam rng 0 = Inr (R, rng, [])"
| "render_frames X R cam rng (Suc k) =
     (case render_frames X R cam rng k of
        Inl e \<Rightarrow> Inl e
      | Inr (R1, rng1, Vs) \<Rightarrow>
          (case render X R1 cam rng1 of
             Inl e \<Rightarrow> Inl e
           | Inr (img, R2, rng2) \<Rightarrow> Inr (R2, rng2, Vs @ [length (m_candidates R2)])))"

section \<open>The weighting function as the specification words it\<close>



text \<open>
  The candidate pool of the specification: the vertices of sub-path 0 in the order of
  their indices, then those of sub-path 1, and so on up to sub-path \<open>M - 1\<close>.
\<close>

definition path_candidates :: "'p list list \<Rightarrow> nat \<Rightarrow> candidate list" where
  "path_candidates paths i =
     map (\<lambda>j. \<lparr>cand_path = i, cand_vertex = j\<rparr>) [0..<length (paths ! i)]"

definition spec_pool :: "'p list list \<Rightarrow> nat \<Rightarrow> candidate list" where
  "spec_pool paths M = concat (map (path_candidates paths) [0..<M])"

text \<open>Candidate \<open>(i, j)\<close> is before \<open>(i', j')\<close>: \<open>i < i'\<close>, or \<open>i = i'\<close> and \<open>j < j'\<close>.\<close>

definition precedes :: "candidate \<Rightarrow> candidate \<Rightarrow> bool" where
  "precedes c c' =
     (cand_path c < cand_path c' \<or> cand_path c = cand_path c' \<and> cand_vertex c < cand_vertex c')"

text \<open>The sum of two pixels and the product of a pixel and a factor, channel by channel.\<close>

definition pixel_add :: "'f::plus \<times> 'f \<times> 'f \<Rightarrow> 'f \<times> 'f \<times> 'f \<Rightarrow> 'f \<times> 'f \<times> 'f" where
  "pixel_add p c = (case (p, c) of ((r, g, b), (cr, cg, cb)) \<Rightarrow> (r + cr, g + cg, b + cb))"

definition pixel_scale :: "'f::times \<times> 'f \<times> 'f \<Rightarrow> 'f \<Rightarrow> 'f \<times> 'f \<times> 'f" where
  "pixel_scale p v = (case p of (r, g, b) \<Rightarrow> (r * v, g * v, b * v))"

section \<open>Floating-point values with infinities and NaN\<close>

text \<open>
  The values of an IEEE 754 format by kind. The arithmetic of the finite values is that of
  the reals they stand for (rounding and overflow are not modelled, and the two zeros are
  one value, taken as positive where a finite value is divided by it); the arithmetic of
  the infinities and of NaN is that of the standard.
\<close>

datatype ieee = Finite real | PInf | NInf | NaN

definition is_finite :: "ieee \<Rightarrow> bool" where
  "is_finite v = (case v of Finite r \<Rightarrow> True | _ \<Rightarrow> False)"

fun ieee_add :: "ieee \<Rightarrow> ieee \<Rightarrow> ieee" where
  "ieee_add NaN b = NaN"
| "ieee_add a NaN = NaN"
| "ieee_add PInf NInf = NaN"
| "ieee_add NInf PInf = NaN"
| "ieee_add PInf b = PInf"
| "ieee_add a PInf = PInf"
| "ieee_add NInf b = NInf"
| "ieee_add a NInf = NInf"
| "ieee_add (Finite a) (Finite b) = Finite (a + b)"

fun ieee_sub :: "ieee \<Rightarrow> ieee \<Rightarrow> ieee" where
  "ieee_sub NaN b = NaN"
| "ieee_sub a NaN = NaN"
| "ieee_sub PInf PInf = NaN"
| "ieee_sub NInf NInf = NaN"
| "ieee_sub PInf b = PInf"
| "ieee_sub a NInf = PInf"
| "ieee_sub NInf b = NInf"
| "ieee_sub a PInf = NInf"
| "ieee_sub (Finite a) (Finite b) = Finite (a - b)"

fun ieee_mul :: "ieee \<Rightarrow> ieee \<Rightarrow> ieee" where
  "ieee_mul NaN b = NaN"
| "ieee_mul a NaN = NaN"
| "ieee_mul PInf PInf = PInf"
| "ieee_mul PInf NInf = NInf"
| "ieee_mul NInf PInf = NInf"
| "ieee_mul NInf NInf = PInf"
| "ieee_mul PInf (Finite b) = (if 0 < b then PInf else if b < 0 then NInf else NaN)"
| "ieee_mul NInf (Finite b) = (if 0 < b then NInf else if b < 0 then PInf else NaN)"
| "ieee_mul (Finite a) PInf = (if 0 < a then PInf else if a < 0 then NInf else NaN)"
| "ieee_mul (Finite a) NInf = (if 0 < a then NInf else if a < 0 then PInf else NaN)"
| "ieee_mul (Finite a) (Finite b) = Finite (a * b)"

fun ieee_div :: "ieee \<Rightarrow> ieee \<Rightarrow> ieee" where
  "ieee_div NaN b = NaN"
| "ieee_div a NaN = NaN"
| "ieee_div PInf (Finite b) = (if b < 0 then NInf else PInf)"
| "ieee_div NInf (Finite b) = (if b < 0 then PInf else NInf)"
| "ieee_div (Finite a) (Finite b) =
     (if b \<noteq> 0 then Finite (a / b)
      else if 0 < a then PInf else if a < 0 then NInf else NaN)"
| "ieee_div (Finite a) b = Finite 0"
| "ieee_div a b = NaN"

fun ieee_less :: "ieee \<Rightarrow> ieee \<Rightarrow> bool" where
  "ieee_less NaN b = False"
| "ieee_less a NaN = False"
| "ieee_less a NInf = False"
| "ieee_less PInf b = False"
| "ieee_less NInf b = True"
| "ieee_less a PInf = True"
| "ieee_less (Finite a) (Finite b) = (a < b)"

instantiation ieee :: "{zero,one,plus,minus,times,inverse,ord}"
begin

definition zero_ieee :: ieee where
  "zero_ieee = Finite 0"

definition one_ieee :: ieee where
  "one_ieee = Finite 1"

definition plus_ieee :: "ieee \<Rightarrow> ieee \<Rightarrow> ieee" where
  "plus_ieee = ieee_add"

definition minus_ieee :: "ieee \<Rightarrow> ieee \<Rightarrow> ieee" where
  "minus_ieee = ieee_sub"

definition times_ieee :: "ieee \<Rightarrow> ieee \<Rightarrow> ieee" where
  "times_ieee = ieee_mul"

definition divide_ieee :: "ieee \<Rightarrow> ieee \<Rightarrow> ieee" where
  "divide_ieee = ieee_div"

definition inverse_ieee :: "ieee \<Rightarrow> ieee" where
  "inverse_ieee v = ieee_div (Finite 1) v"

definition less_ieee :: "ieee \<Rightarrow> ieee \<Rightarrow> bool" where
  "less_ieee = ieee_less"

definition less_eq_ieee :: "ieee \<Rightarrow> ieee \<Rightarrow> bool" where
  "less_eq_ieee a b = (a \<noteq> NaN \<and> b \<noteq> NaN \<and> (ieee_less a b \<or> a = b))"

instance ..

end

section \<open>A scene on a line\<close>

text \<open>
  Collaborators small enough to run the renderer on: the points are reals, a direction is
  a unit vector with the normal it is measured against, a colour has one value for its
  three channels, the generator is a counter. \<open>emb\<close> and \<open>unemb\<close> go between the reals
  and the numeric type. Every light sub-path is \<open>light\<close>, every eye sub-path is a lens
  vertex at 1 and a surface vertex at 2, nothing occludes, the distribution of a cache
  point is uniform over the candidate pool with the normalisation constant \<open>q\<close> (0 for an
  empty pool) and its sample is the last candidate, the uniform reals drawn are \<open>us\<close> and
  the integer drawn from \<open>[lo, hi]\<close> is \<open>hi\<close>.
\<close>

definition blank_cache :: "(real \<Rightarrow> 'f) \<Rightarrow> ('f, nat) cache" where
  "blank_cache emb =
     \<lparr>normalization_constant = emb 0, cache_Q = emb 0, cache_pmf = (\<lambda>i. emb 0),
      cache_sample = (\<lambda>rng. (\<lparr>p_elem = 0, sample_pmf = emb 0\<rparr>, Suc rng)),
      cache_elems = []\<rparr>"

definition filled_cache :: "(real \<Rightarrow> 'f) \<Rightarrow> candidate list \<Rightarrow> real \<Rightarrow> ('f, nat) cache" where
  "filled_cache emb cands q =
     \<lparr>normalization_constant = emb (if cands = [] then 0 else q), cache_Q = emb q,
      cache_pmf = (\<lambda>i. emb (if i < length cands then 1 / real (length cands) else 0)),
      cache_sample =
        (\<lambda>rng. (\<lparr>p_elem = length cands - 1,
                   sample_pmf = emb (1 / real (length cands))\<rparr>, Suc rng)),
      cache_elems = cands\<rparr>"

definition lens_vertex ::
  "(real \<Rightarrow> 'f) \<Rightarrow> ('f, real, real \<times> real, 'f, nat) camera_path_vertex" where
  "lens_vertex emb =
     \<lparr>cv_p = 1, cv_n = - 1, cv_is_emissive = False, cv_Le = (\<lambda>d. emb 0), cv_wo = (0, 0),
      cv_wi = (0, 0), cv_brdf_f = (\<lambda>d. emb 1), throughput_We = emb 1, pdf_fwd = emb 1,
      neighbor_cache = (\<lambda>i. blank_cache emb)\<rparr>"

definition surface_vertex ::
  "(real \<Rightarrow> 'f) \<Rightarrow> ('f, nat) cache \<Rightarrow> ('f, real, real \<times> real, 'f, nat) camera_path_vertex" where
  "surface_vertex emb c =
     \<lparr>cv_p = 2, cv_n = - 1, cv_is_emissive = False, cv_Le = (\<lambda>d. emb 0), cv_wo = (1, - 1),
      cv_wi = (- 1, - 1), cv_brdf_f = (\<lambda>d. emb (1 / 2)), throughput_We = emb 1, pdf_fwd = emb 1,
      neighbor_cache = (\<lambda>i. c)\<rparr>"


definition scene_1d ::
  "(real \<Rightarrow> 'f::times) \<Rightarrow> ('f \<Rightarrow> real) \<Rightarrow> ('f \<Rightarrow> bool) \<Rightarrow>
   (real, real \<times> real, 'f) light_path \<Rightarrow> real \<Rightarrow> (nat \<Rightarrow> real) \<Rightarrow>
   ('f, 'f, real, real \<times> real, 'f, nat) collaborators" where
  "scene_1d emb unemb nan_test light q us =
     \<lparr>Nc = 2,
      mis_threshold = emb (1 / 10),
      to_float = (\<lambda>n. emb (real n)),
      to_double = (\<lambda>n. emb (real n)),
      double_to_float = (\<lambda>v. v),
      is_zero = (\<lambda>v. v = emb 0),
      isnan = nan_test,
      fsqrt = (\<lambda>v. emb (sqrt (unemb v))),
      generate_uniform_real = (\<lambda>rng. (emb (us rng), Suc rng)),
      generate_uniform_int = (\<lambda>lo hi rng. (hi, Suc rng)),
      vec_sub = (\<lambda>a b. a - b),
      squared_norm = (\<lambda>v. emb (v * v)),
      vec_div = (\<lambda>v d. v / unemb d),
      direction = (\<lambda>v n. (v, n)),
      direction_neg = (\<lambda>d. - fst d),
      direction_default = (0, 0),
      is_invalid = (\<lambda>d. fst d = 0),
      in_lower_hemisphere = (\<lambda>d. fst d * snd d < 0),
      abs_cos = (\<lambda>d. emb \<bar>fst d * snd d\<bar>),
      intersect = (\<lambda>p d dist. False),
      col_scale = (\<lambda>c v. c * v),
      col_at = (\<lambda>c k. c),
      candidate_s = (\<lambda>c. cand_vertex c + 1),
      light_mis_partial_weight = (\<lambda>y s z t yz zy M Qp. emb 1),
      camera_mis_partial_weight = (\<lambda>y s z t yz zy M Qp. emb 1),
      calc_intersection = (\<lambda>cam p d. \<lparr>is_valid = True, pos_x = 0, pos_y = 0\<rparr>),
      camera_We = (\<lambda>cam d. emb 1),
      camera_for_gen_caches = (\<lambda>cam. \<lparr>res_x = 1, res_y = 1\<rparr>),
      kd_tree = (\<lambda>cs. cs),
      construct_camera_path =
        (\<lambda>cam x y rng caches.
           ([lens_vertex emb,
             surface_vertex emb (case caches of Some (c # cs) \<Rightarrow> c | _ \<Rightarrow> blank_cache emb)],
            Suc rng)),
      construct_light_path = (\<lambda>rng caches. (light, Suc rng)),
      make_cache = (\<lambda>v first. blank_cache emb),
      calc_distribution = (\<lambda>cands paths M c. filled_cache emb cands q)\<rparr>"

text \<open>The scene in exact real arithmetic, where no value is NaN.\<close>

definition real_scene ::
  "(real, real \<times> real, real) light_path \<Rightarrow> real \<Rightarrow> (nat \<Rightarrow> real) \<Rightarrow>
   (real, real, real, real \<times> real, real, nat) collaborators" where
  "real_scene light q us = scene_1d (\<lambda>r. r) (\<lambda>r. r) (\<lambda>v. False) light q us"

text \<open>The scene over the values with infinities and NaN.\<close>

definition ieee_scene ::
  "(real, real \<times> real, ieee) light_path \<Rightarrow> real \<Rightarrow> (nat \<Rightarrow> real) \<Rightarrow>
   (ieee, ieee, real, real \<times> real, ieee, nat) collaborators" where
  "ieee_scene light q us =
     scene_1d Finite (\<lambda>v. case v of Finite r \<Rightarrow> r | _ \<Rightarrow> 0) (\<lambda>v. v = NaN) light q us"

text \<open>The uniform draws 0, 1/4, 1/2, 3/4, 0, ...\<close>

definition quarters :: "nat \<Rightarrow> real" where
  "quarters rng = real (rng mod 4) / 4"

definition unit_camera :: camera where
  "unit_camera = \<lparr>res_x = 1, res_y = 1\<rparr>"




text \<open>The scene without a light source: every light sub-path has no vertex.\<close>

definition dark_scene :: "(real, real, real, real \<times> real, real, nat) collaborators" where
  "dark_scene = real_scene [] 3 quarters"

section \<open>The fields of the scene on a line\<close>

lemma scene_1d_numeric [simp]:
  "Nc (scene_1d emb unemb nt light q us) = 2"
  "mis_threshold (scene_1d emb unemb nt light q us) = emb (1 / 10)"
  "to_float (scene_1d emb unemb nt light q us) = (\<lambda>n. emb (real n))"
  "to_double (scene_1d emb unemb nt light q us) = (\<lambda>n. emb (real n))"
  "double_to_float (scene_1d emb unemb nt light q us) = (\<lambda>v. v)"
  "is_zero (scene_1d emb unemb nt light q us) = (\<lambda>v. v = emb 0)"
  "isnan (scene_1d emb unemb nt light q us) = nt"
  "fsqrt (scene_1d emb unemb nt light q us) = (\<lambda>v. emb (sqrt (unemb v)))"
  "generate_uniform_real (scene_1d emb unemb nt light q us) = (\<lambda>rng. (emb (us rng), Suc rng))"
  "generate_uniform_int (scene_1d emb unemb nt light q us) =
     (\<lambda>lo hi rng. (hi, Suc rng))"
  by (simp_all add: scene_1d_def)

lemma scene_1d_geometry [simp]:
  "vec_sub (scene_1d emb unemb nt light q us) = (\<lambda>a b. a - b)"
  "squared_norm (scene_1d emb unemb nt light q us) = (\<lambda>v. emb (v * v))"
  "vec_div (scene_1d emb unemb nt light q us) = (\<lambda>v d. v / unemb d)"
  "direction (scene_1d emb unemb nt light q us) = (\<lambda>v n. (v, n))"
  "direction_neg (scene_1d emb unemb nt light q us) = (\<lambda>d. - fst d)"
  "direction_default (scene_1d emb unemb nt light q us) = (0, 0)"
  "is_invalid (scene_1d emb unemb nt light q us) = (\<lambda>d. fst d = 0)"
  "in_lower_hemisphere (scene_1d emb unemb nt light q us) = (\<lambda>d. fst d * snd d < 0)"
  "abs_cos (scene_1d emb unemb nt light q us) = (\<lambda>d. emb \<bar>fst d * snd d\<bar>)"
  "intersect (scene_1d emb unemb nt light q us) = (\<lambda>p d dist. False)"
  by (simp_all add: scene_1d_def)

lemma scene_1d_paths [simp]:
  "col_scale (scene_1d emb unemb nt light q us) = (\<lambda>c v. c * v)"
  "col_at (scene_1d emb unemb nt light q us) = (\<lambda>c k. c)"
  "candidate_s (scene_1d emb unemb nt light q us) = (\<lambda>c. cand_vertex c + 1)"
  "light_mis_partial_weight (scene_1d emb unemb nt light q us) = (\<lambda>y s z t yz zy M Qp. emb 1)"
  "camera_mis_partial_weight (scene_1d emb unemb nt light q us) = (\<lambda>y s z t yz zy M Qp. emb 1)"
  "calc_intersection (scene_1d emb unemb nt light q us) =
     (\<lambda>cam p d. \<lparr>is_valid = True, pos_x = 0, pos_y = 0\<rparr>)"
  "camera_We (scene_1d emb unemb nt light q us) = (\<lambda>cam d. emb 1)"
  "camera_for_gen_caches (scene_1d emb unemb nt light q us) = (\<lambda>cam. \<lparr>res_x = 1, res_y = 1\<rparr>)"
  "kd_tree (scene_1d emb unemb nt light q us) = (\<lambda>cs. cs)"
  "construct_camera_path (scene_1d emb unemb nt light q us) =
     (\<lambda>cam x y rng caches.
        ([lens_vertex emb,
          surface_vertex emb (case caches of Some (c # cs) \<Rightarrow> c | _ \<Rightarrow> blank_cache emb)],
         Suc rng))"
  "construct_light_path (scene_1d emb unemb nt light q us) = (\<lambda>rng caches. (light, Suc rng))"
  "make_cache (scene_1d emb unemb nt light q us) = (\<lambda>v first. blank_cache emb)"
  "calc_distribution (scene_1d emb unemb nt light q us) =
     (\<lambda>cands paths M c. filled_cache emb cands q)"
  by (simp_all add: scene_1d_def)

section \<open>The choice of the cache point\<close>






text \<open>
  C5. When the cache point chosen is a real one and its normalisation constant is zero,
  the pass over \<open>t\<close> ends there: it adds nothing to \<open>L\<close> and the generator is the one left
  by the draw of \<open>u\<close>. The cache point is not sampled: the result is the same whatever its
  \<^verbatim>\<open>sample\<close> function is.
\<close>

theorem zero_cache_skipped:
  assumes t: "2 \<le> t" "t \<le> length z"
    and ne: "\<not> cv_is_emissive (z ! (t - 1))"
    and sel: "sample_cache_point X rng = (cache_idx, pmf, rng1)"
    and real_cache: "cache_idx \<noteq> Nc X"
    and zero: "is_zero X (normalization_constant (neighbor_cache (z ! (t - 1)) cache_idx))"
  shows "st_iteration X R z rng t = Inr (None, rng1) \<and>
         (\<forall>f. st_iteration X R
                (z[t - 1 := (z ! (t - 1))\<lparr>neighbor_cache :=
                    (neighbor_cache (z ! (t - 1)))
                      (cache_idx := (neighbor_cache (z ! (t - 1)) cache_idx)\<lparr>cache_sample := f\<rparr>)\<rparr>])
                rng t = Inr (None, rng1))"
proof -
  have here: "st_iteration X R z rng t = Inr (None, rng1)"
    using ne zero sel real_cache by (simp add: st_iteration_def)
  have "t - 1 < length z" using t by simp
  then have "st_iteration X R
                (z[t - 1 := (z ! (t - 1))\<lparr>neighbor_cache :=
                    (neighbor_cache (z ! (t - 1)))
                      (cache_idx := (neighbor_cache (z ! (t - 1)) cache_idx)\<lparr>cache_sample := f\<rparr>)\<rparr>])
                rng t = Inr (None, rng1)" for f
    using ne zero sel real_cache by (simp add: st_iteration_def)
  with here show ?thesis by blast
qed

theorem zero_cache_skipped_witness:
  "sample_cache_point (real_scene [] 3 quarters) 0 = (0, 1 / 3, 1) \<and>
   normalization_constant (blank_cache (\<lambda>r. r) :: (real, nat) cache) = 0 \<and>
   st_iteration (real_scene [] 3 quarters) (renderer_ctor unit_camera 1 1)
     [lens_vertex (\<lambda>r. r), surface_vertex (\<lambda>r. r) (blank_cache (\<lambda>r. r))] 0 2 = Inr (None, 1)"
proof -
  let ?X = "real_scene [] 3 quarters"
  let ?z = "[lens_vertex (\<lambda>r. r), surface_vertex (\<lambda>r. r) (blank_cache (\<lambda>r. r))]"
  have sel: "sample_cache_point ?X 0 = (0, 1 / 3, 1)"
    by (simp add: sample_cache_point_def real_scene_def quarters_def)
  have ne: "\<not> cv_is_emissive (?z ! (2 - 1))"
    by (simp add: surface_vertex_def)
  have zero: "is_zero ?X (normalization_constant (neighbor_cache (?z ! (2 - 1)) 0))"
    by (simp add: real_scene_def surface_vertex_def blank_cache_def)
  have "st_iteration ?X (renderer_ctor unit_camera 1 1) ?z 0 2 = Inr (None, 1)"
    using zero_cache_skipped [of 2 ?z ?X 0 0 "1 / 3" 1, OF _ _ ne sel _ zero]
    by (simp add: real_scene_def)
  then show ?thesis using sel by (simp add: blank_cache_def)
qed

section \<open>The resampling-aware weight\<close>






section \<open>A scene without light sources\<close>

text \<open>
  With an empty candidate pool the virtual cache point draws an index in
  \<open>[0, 2^64 - 1]\<close> and reads \<^verbatim>\<open>m_candidates\<close> there: past its end.
\<close>

lemma virtual_on_empty_pool:
  assumes ne: "\<not> cv_is_emissive (z ! (t - 1))"
    and sel: "sample_cache_point X rng = (Nc X, pmf, rng1)"
    and empty: "m_candidates R = []"
  shows "st_iteration X R z rng t = Inl Out_Of_Range"
  using ne sel empty
  by (simp add: st_iteration_def resample_light_subpath_def elem_at_def and_then_def
      split: prod.splits)

text \<open>
  C3. A frame of the scene without light sources in which the draw for the surface vertex
  falls to the virtual cache point: \<^verbatim>\<open>render\<close> does not return an image.
\<close>

theorem zero_light_render_faults:
  "render (dark_scene) (renderer_ctor unit_camera 1 1) unit_camera 0 =
     Inl Out_Of_Range"
  by (simp add: render_def prepare_frame_def dark_scene_def real_scene_def renderer_ctor_def unit_camera_def pixels_def
      build_candidates_def vector_resize_def and_then_def memset_zero_def imagef_new_def
      radiance_def calculate_s1_def calculate_0t_def calculate_st_def st_iteration_def
      sample_cache_point_def quarters_def resample_light_subpath_def elem_at_def
      size_t_dec_def lens_vertex_def surface_vertex_def filled_cache_def blank_cache_def
      Let_def)


section \<open>The candidate pool\<close>

declare count_vertices.simps [simp del] fill_vertices.simps [simp del] fill_paths.simps [simp del]

lemma count_vertices_eq:
  "M \<le> length paths \<Longrightarrow> i \<le> M \<Longrightarrow>
   count_vertices paths M i V = Inr (V + (\<Sum>k\<leftarrow>[i..<M]. length (paths ! k)))"
proof (induction paths M i V rule: count_vertices.induct)
  case (1 paths M i V)
  show ?case
  proof (cases "i < M")
    case False
    with "1.prems" show ?thesis by (subst count_vertices.simps) simp
  next
    case True
    then have upt: "[i..<M] = i # [Suc i..<M]" by (simp add: upt_conv_Cons)
    have at: "elem_at paths i = Inr (paths ! i)"
      using True "1.prems" by (simp add: elem_at_def)
    show ?thesis
      using "1.IH" [OF True at] "1.prems" True
      by (subst count_vertices.simps) (simp add: at upt)
  qed
qed

lemma fill_vertices_eq:
  "j \<le> n \<Longrightarrow> V + (n - j) \<le> length cands \<Longrightarrow>
   fill_vertices cands V i j n =
     Inr (take V cands @ map (\<lambda>j. \<lparr>cand_path = i, cand_vertex = j\<rparr>) [j..<n] @
          drop (V + (n - j)) cands, V + (n - j))"
proof (induction cands V i j n rule: fill_vertices.induct)
  case (1 cands V i j n)
  show ?case
  proof (cases "j < n")
    case False
    with "1.prems" show ?thesis by (subst fill_vertices.simps) simp
  next
    case True
    then have upt: "[j..<n] = j # [Suc j..<n]" by (simp add: upt_conv_Cons)
    have V: "V < length cands" using True "1.prems" by simp
    let ?c = "\<lparr>cand_path = i, cand_vertex = j\<rparr>"
    have "fill_vertices (cands[V := ?c]) (V + 1) i (j + 1) n =
          Inr (take (V + 1) (cands[V := ?c]) @
               map (\<lambda>j. \<lparr>cand_path = i, cand_vertex = j\<rparr>) [j + 1..<n] @
               drop (V + 1 + (n - (j + 1))) (cands[V := ?c]), V + 1 + (n - (j + 1)))"
      using "1.IH" [OF True V] True "1.prems" by simp
    moreover have "take (V + 1) (cands[V := ?c]) = take V cands @ [?c]"
      using V by (simp add: take_Suc_conv_app_nth)
    moreover have e: "V + 1 + (n - (j + 1)) = V + (n - j)" using True by arith
    moreover have "drop (V + 1 + (n - (j + 1))) (cands[V := ?c]) = drop (V + (n - j)) cands"
      unfolding e using True by (intro drop_update_cancel) simp
    ultimately show ?thesis
      using True V by (subst fill_vertices.simps) (simp add: upt)
  qed
qed

lemma fill_paths_eq:
  "M \<le> length paths \<Longrightarrow> i \<le> M \<Longrightarrow>
   V + (\<Sum>k\<leftarrow>[i..<M]. length (paths ! k)) \<le> length cands \<Longrightarrow>
   fill_paths paths M cands V i =
     Inr (take V cands @ concat (map (path_candidates paths) [i..<M]) @
          drop (V + (\<Sum>k\<leftarrow>[i..<M]. length (paths ! k))) cands)"
proof (induction paths M cands V i rule: fill_paths.induct)
  case (1 paths M cands V i)
  show ?case
  proof (cases "i < M")
    case False
    with "1.prems" show ?thesis by (subst fill_paths.simps) simp
  next
    case True
    then have upt: "[i..<M] = i # [Suc i..<M]" by (simp add: upt_conv_Cons)
    let ?n = "length (paths ! i)"
    let ?rest = "\<Sum>k\<leftarrow>[Suc i..<M]. length (paths ! k)"
    have at: "elem_at paths i = Inr (paths ! i)"
      using True "1.prems" by (simp add: elem_at_def)
    have room: "V + ?n + ?rest \<le> length cands" using "1.prems" by (simp add: upt)
    let ?cands' = "take V cands @ path_candidates paths i @ drop (V + ?n) cands"
    have fv: "fill_vertices cands V i 0 ?n = Inr (?cands', V + ?n)"
      using fill_vertices_eq [of 0 ?n V cands i] room by (simp add: path_candidates_def)
    have len: "length ?cands' = length cands"
      using room by (simp add: path_candidates_def)
    have "fill_paths paths M ?cands' (V + ?n) (i + 1) =
          Inr (take (V + ?n) ?cands' @ concat (map (path_candidates paths) [i + 1..<M]) @
               drop (V + ?n + ?rest) ?cands')"
      using "1.IH" [OF True at fv refl] True "1.prems" room len by simp
    moreover have "take (V + ?n) ?cands' = take V cands @ path_candidates paths i"
      using room by (simp add: path_candidates_def)
    moreover have "drop (V + ?n + ?rest) ?cands' = drop (V + ?n + ?rest) cands"
      using room by (simp add: path_candidates_def ac_simps)
    ultimately show ?thesis
      using True by (subst fill_paths.simps) (simp add: at fv upt add.assoc)
  qed
qed

lemma build_candidates_eq:
  assumes "M \<le> length paths"
  shows "build_candidates paths M old = Inr (concat (map (path_candidates paths) [0..<M]))"
proof -
  let ?V = "\<Sum>k\<leftarrow>[0..<M]. length (paths ! k)"
  let ?cands = "vector_resize old ?V \<lparr>cand_path = 0, cand_vertex = 0\<rparr>"
  have len: "length ?cands = ?V" by (simp add: vector_resize_def)
  have "fill_paths paths M ?cands 0 0 =
        Inr (take 0 ?cands @ concat (map (path_candidates paths) [0..<M]) @ drop (0 + ?V) ?cands)"
    using assms len by (intro fill_paths_eq) simp_all
  then show ?thesis
    using count_vertices_eq [OF assms, of 0 0] len
    by (simp add: build_candidates_def and_then_def)
qed

lemma length_construct_light_paths:
  "length (fst (construct_light_paths X caches n rng)) = n"
  by (induction n arbitrary: rng) (simp_all add: split_beta Let_def)

lemma set_path_candidates:
  "set (path_candidates paths i) =
     {\<lparr>cand_path = i, cand_vertex = j\<rparr> | j. j < length (paths ! i)}"
  by (auto simp: path_candidates_def)

lemma sorted_path_candidates: "sorted_wrt precedes (path_candidates paths i)"
  by (simp add: path_candidates_def sorted_wrt_map precedes_def)

lemma set_spec_pool:
  "set (spec_pool paths M) =
     {\<lparr>cand_path = i, cand_vertex = j\<rparr> | i j. i < M \<and> j < length (paths ! i)}"
  by (auto simp: spec_pool_def set_path_candidates)

lemma sorted_spec_pool: "sorted_wrt precedes (spec_pool paths M)"
proof (induction M)
  case 0
  show ?case by (simp add: spec_pool_def)
next
  case (Suc M)
  have "spec_pool paths (Suc M) = spec_pool paths M @ path_candidates paths M"
    by (simp add: spec_pool_def)
  moreover have "precedes c c'"
    if "c \<in> set (spec_pool paths M)" "c' \<in> set (path_candidates paths M)" for c c'
    using that by (auto simp: set_spec_pool set_path_candidates precedes_def)
  ultimately show ?case
    using Suc sorted_path_candidates [of paths M] by (simp add: sorted_wrt_append)
qed

lemma length_spec_pool: "length (spec_pool paths M) = (\<Sum>i<M. length (paths ! i))"
proof (induction M)
  case 0
  show ?case by (simp add: spec_pool_def)
next
  case (Suc M)
  have "spec_pool paths (Suc M) = spec_pool paths M @ path_candidates paths M"
    by (simp add: spec_pool_def)
  then show ?case using Suc by (simp add: path_candidates_def)
qed

lemma precedes_order:
  "\<not> precedes c c" "precedes c c' \<Longrightarrow> \<not> precedes c' c"
  by (auto simp: precedes_def)

lemma sorted_positions:
  assumes "sorted_wrt precedes xs" "a < length xs" "b < length xs"
  shows "a < b \<longleftrightarrow> precedes (xs ! a) (xs ! b)"
proof
  assume "a < b"
  then show "precedes (xs ! a) (xs ! b)"
    using assms by (simp add: sorted_wrt_iff_nth_less)
next
  assume p: "precedes (xs ! a) (xs ! b)"
  show "a < b"
  proof (rule ccontr)
    assume "\<not> a < b"
    then consider "a = b" | "b < a" by linarith
    then show False
    proof cases
      case 1
      with p show False by (simp add: precedes_order(1))
    next
      case 2
      then have "precedes (xs ! b) (xs ! a)"
        using assms by (simp add: sorted_wrt_iff_nth_less)
      with p show False by (simp add: precedes_order(2))
    qed
  qed
qed

text \<open>
  C6. Built from the \<open>w h\<close> light sub-paths of the frame with \<open>M \<le> w h\<close> (so with
  \<open>M = w h\<close> too), the candidate pool is built without a read past the end of the
  sub-paths: it is the pool of the specification, its size is the sum of the vertex counts
  of the first \<open>M\<close> sub-paths, each candidate refers to a sub-path \<open>i < M\<close> and to a vertex
  of it, and one candidate is before another in the pool exactly when its pair of indices
  precedes the other's.
\<close>

theorem candidate_pool_layout:
  assumes paths: "paths = fst (construct_light_paths X caches (w * h) rng)"
    and M: "M \<le> w * h"
  shows "build_candidates paths M old = Inr (spec_pool paths M) \<and>
         length (spec_pool paths M) = (\<Sum>i<M. length (paths ! i)) \<and>
         (\<forall>c \<in> set (spec_pool paths M).
            cand_path c < M \<and> cand_vertex c < length (paths ! cand_path c)) \<and>
         (\<forall>a b. a < length (spec_pool paths M) \<and> b < length (spec_pool paths M) \<longrightarrow>
            (a < b \<longleftrightarrow> precedes (spec_pool paths M ! a) (spec_pool paths M ! b)))"
proof -
  have "length paths = w * h"
    unfolding paths by (rule length_construct_light_paths)
  with M have "M \<le> length paths" by simp
  then have "build_candidates paths M old = Inr (spec_pool paths M)"
    by (simp add: build_candidates_eq spec_pool_def)
  moreover have "\<forall>c \<in> set (spec_pool paths M).
            cand_path c < M \<and> cand_vertex c < length (paths ! cand_path c)"
    by (auto simp: set_spec_pool)
  ultimately show ?thesis
    using length_spec_pool [of paths M] sorted_positions [OF sorted_spec_pool [of paths M]]
    by blast
qed

section \<open>The pixels of a frame\<close>

declare s1_loop.simps [simp del] st_loop.simps [simp del]

lemma s1_loop_fields:
  "s1_loop X R cam y z s = Inr R' \<Longrightarrow> \<exists>buf. R' = R\<lparr>m_buf_s1 := buf\<rparr>"
proof (induction X R cam y z s rule: s1_loop.induct)
  case (1 X R cam y z s)
  show ?case
  proof (cases "s \<le> length y")
    case False
    with "1.prems" have "R' = R" by (simp add: s1_loop.simps [of X R cam y z s])
    then have "R' = R\<lparr>m_buf_s1 := m_buf_s1 R\<rparr>" by simp
    then show ?thesis by blast
  next
    case True
    with "1.prems" obtain buf where
      it: "s1_iteration X R cam y z s = Inr buf" and
      rest: "s1_loop X (R\<lparr>m_buf_s1 := buf\<rparr>) cam y z (s + 1) = Inr R'"
      by (auto simp: s1_loop.simps [of X R cam y z s] split: sum.splits)
    from "1.IH" [OF True it rest] obtain buf' where "R' = R\<lparr>m_buf_s1 := buf\<rparr>\<lparr>m_buf_s1 := buf'\<rparr>"
      by blast
    then have "R' = R\<lparr>m_buf_s1 := buf'\<rparr>" by simp
    then show ?thesis by blast
  qed
qed

lemma radiance_fields:
  assumes "radiance X R cam x y rng = Inr (col, R', rng')"
  shows "\<exists>buf. R' = R\<lparr>m_buf_s1 := buf\<rparr>"
  using assms s1_loop_fields
  by (fastforce simp: radiance_def calculate_s1_def and_then_def Let_def
      split: prod.splits sum.splits)

lemma store_color_px:
  "img_px (store_color X screen x y col) x' y' =
     (if x' = x \<and> y' = y \<and> \<not> isnan X (col_at X col 0 + col_at X col 1 + col_at X col 2)
      then col_channels X col else img_px screen x' y')"
  by (simp add: store_color_def)

lemma render_pixels_fields:
  "render_pixels X cam ps R rng screen = Inr (R', rng', screen') \<Longrightarrow>
   \<exists>buf. R' = R\<lparr>m_buf_s1 := buf\<rparr>"
proof (induction ps arbitrary: R rng screen)
  case Nil
  then have "R' = R\<lparr>m_buf_s1 := m_buf_s1 R\<rparr>" by simp
  then show ?case by blast
next
  case (Cons p ps)
  obtain x y where p: "p = (x, y)" by (cases p)
  from Cons.prems obtain col R1 rng1 where
    rad: "radiance X R cam x y rng = Inr (col, R1, rng1)" and
    rest: "render_pixels X cam ps R1 rng1 (store_color X screen x y col) = Inr (R', rng', screen')"
    by (auto simp: p split: sum.splits)
  from radiance_fields [OF rad] obtain b1 where "R1 = R\<lparr>m_buf_s1 := b1\<rparr>" by blast
  moreover from Cons.IH [OF rest] obtain b2 where "R' = R1\<lparr>m_buf_s1 := b2\<rparr>" by blast
  ultimately have "R' = R\<lparr>m_buf_s1 := b2\<rparr>" by simp
  then show ?case by blast
qed

lemma render_pixels_other:
  "render_pixels X cam ps R rng screen = Inr (R', rng', screen') \<Longrightarrow> (x, y) \<notin> set ps \<Longrightarrow>
   img_px screen' x y = img_px screen x y"
proof (induction ps arbitrary: R rng screen)
  case Nil
  then show ?case by simp
next
  case (Cons p ps)
  obtain a b where p: "p = (a, b)" by (cases p)
  from Cons.prems obtain col R1 rng1 where
    rest: "render_pixels X cam ps R1 rng1 (store_color X screen a b col) = Inr (R', rng', screen')"
    by (auto simp: p split: sum.splits)
  from Cons.IH [OF rest] Cons.prems(2) show ?case
    by (auto simp: p store_color_px)
qed

lemma render_pixels_px:
  "render_pixels X cam ps R rng screen = Inr (R', rng', screen') \<Longrightarrow> distinct ps \<Longrightarrow>
   (x, y) \<in> set ps \<Longrightarrow>
   \<exists>col Ra rnga Rb rngb buf.
     Ra = R\<lparr>m_buf_s1 := buf\<rparr> \<and> radiance X Ra cam x y rnga = Inr (col, Rb, rngb) \<and>
     img_px screen' x y =
       (if isnan X (col_at X col 0 + col_at X col 1 + col_at X col 2) then img_px screen x y
        else col_channels X col)"
proof (induction ps arbitrary: R rng screen)
  case Nil
  then show ?case by simp
next
  case (Cons p ps)
  obtain a b where p: "p = (a, b)" by (cases p)
  from Cons.prems(1) obtain col R1 rng1 where
    rad: "radiance X R cam a b rng = Inr (col, R1, rng1)" and
    rest: "render_pixels X cam ps R1 rng1 (store_color X screen a b col) = Inr (R', rng', screen')"
    by (auto simp: p split: sum.splits)
  show ?case
  proof (cases "(x, y) = (a, b)")
    case True
    then have "(x, y) \<notin> set ps" using Cons.prems(2) by (simp add: p)
    from render_pixels_other [OF rest this]
    have "img_px screen' x y =
       (if isnan X (col_at X col 0 + col_at X col 1 + col_at X col 2) then img_px screen x y
        else col_channels X col)"
      using True by (simp add: store_color_px)
    moreover have "R = R\<lparr>m_buf_s1 := m_buf_s1 R\<rparr>" by simp
    ultimately show ?thesis using rad True by blast
  next
    case False
    then have mem: "(x, y) \<in> set ps" using Cons.prems(3) by (auto simp: p)
    have d: "distinct ps" using Cons.prems(2) by simp
    from Cons.IH [OF rest d mem] obtain col' Ra rnga Rb rngb buf where
      Ra: "Ra = R1\<lparr>m_buf_s1 := buf\<rparr>" and
      rad': "radiance X Ra cam x y rnga = Inr (col', Rb, rngb)" and
      px: "img_px screen' x y =
        (if isnan X (col_at X col' 0 + col_at X col' 1 + col_at X col' 2)
         then img_px (store_color X screen a b col) x y else col_channels X col')"
      by blast
    from radiance_fields [OF rad] obtain b1 where "R1 = R\<lparr>m_buf_s1 := b1\<rparr>" by blast
    with Ra have Ra': "Ra = R\<lparr>m_buf_s1 := buf\<rparr>" by simp
    have "img_px (store_color X screen a b col) x y = img_px screen x y"
      using False by (auto simp: store_color_px)
    with px have px': "img_px screen' x y =
        (if isnan X (col_at X col' 0 + col_at X col' 1 + col_at X col' 2)
         then img_px screen x y else col_channels X col')"
      by (simp only:)
    show ?thesis using Ra' rad' px' by blast
  qed
qed

lemma px_add_px:
  "px_add img x y c = Inr img' \<Longrightarrow>
   img_px img' x' y' = (if x' = x \<and> y' = y then pixel_add (img_px img x y) c else img_px img x' y')"
  by (auto simp: px_add_def pixel_add_def split: if_splits prod.splits)

lemma add_s1_other:
  "add_s1 buf inv_ns1 ps screen = Inr screen' \<Longrightarrow> (x, y) \<notin> set ps \<Longrightarrow>
   img_px screen' x y = img_px screen x y"
proof (induction ps arbitrary: screen)
  case Nil
  then show ?case by simp
next
  case (Cons p ps)
  obtain a b where p: "p = (a, b)" by (cases p)
  from Cons.prems(1) obtain c screen1 where
    add: "px_add screen a b c = Inr screen1" and
    rest: "add_s1 buf inv_ns1 ps screen1 = Inr screen'"
    by (auto simp: p split: if_splits prod.splits sum.splits)
  from Cons.IH [OF rest] Cons.prems(2) px_add_px [OF add, of x y] show ?case
    by (auto simp: p)
qed

lemma add_s1_px:
  "add_s1 buf inv_ns1 ps screen = Inr screen' \<Longrightarrow> distinct ps \<Longrightarrow> (x, y) \<in> set ps \<Longrightarrow>
   img_px screen' x y = pixel_add (img_px screen x y) (pixel_scale (img_px buf x y) inv_ns1)"
proof (induction ps arbitrary: screen)
  case Nil
  then show ?case by simp
next
  case (Cons p ps)
  obtain a b where p: "p = (a, b)" by (cases p)
  from Cons.prems(1) obtain screen1 where
    add: "px_add screen a b (pixel_scale (img_px buf a b) inv_ns1) = Inr screen1" and
    rest: "add_s1 buf inv_ns1 ps screen1 = Inr screen'"
    by (auto simp: p pixel_scale_def split: if_splits prod.splits sum.splits)
  show ?case
  proof (cases "(x, y) = (a, b)")
    case True
    then have "(x, y) \<notin> set ps" using Cons.prems(2) by (simp add: p)
    from add_s1_other [OF rest this] px_add_px [OF add, of x y] True show ?thesis by simp
  next
    case False
    then have mem: "(x, y) \<in> set ps" using Cons.prems(3) by (auto simp: p)
    have d: "distinct ps" using Cons.prems(2) by simp
    from Cons.IH [OF rest d mem] px_add_px [OF add, of x y] False show ?thesis by auto
  qed
qed

lemma pixels_Suc: "pixels w (Suc h) = pixels w h @ map (\<lambda>x. (x, h)) [0..<w]"
  by (simp add: pixels_def)

lemma set_pixels: "set (pixels w h) = {(x, y). x < w \<and> y < h}"
  by (induction h) (auto simp: pixels_Suc pixels_def less_Suc_eq)

lemma distinct_pixels: "distinct (pixels w h)"
proof (induction h)
  case 0
  show ?case by (simp add: pixels_def)
next
  case (Suc h)
  have "distinct (map (\<lambda>x. (x, h)) [0..<w])" by (simp add: distinct_map inj_on_def)
  with Suc show ?case by (auto simp: pixels_Suc set_pixels)
qed

end
